theory Spec2Isabelle
  imports Complex_Main "HOL-Library.Word"
begin

section \<open>Envelope followers of q/fx/envelope.hpp\<close>

text \<open>
  The header defines five per-sample envelope trackers. Each C++ struct becomes a record
  of its data members, each member function a function from the old state (and the
  arguments) to the result and the new state.

  Sample values (\<open>float\<close>) are modelled as \<^typ>\<open>real\<close>: the finite values with exact
  arithmetic. Rounding, infinities and NaN are outside the model. The 16-bit counters
  of the staircase follower are \<^typ>\<open>16 word\<close>, so their wrap-around is the code's.
\<close>

type_synonym float = real
type_synonym uint16_t = "16 word"

subsection \<open>Coefficients\<close>

text \<open>
  Every coefficient in the header is \<open>fast_exp3(-2.0f / (sps * t))\<close>, with \<open>t\<close> the time
  constant in seconds (\<open>as_double\<close> of a \<open>duration\<close>). \<open>fast_exp3\<close> is declared in a
  header that is not part of the sources at hand; it is the parameter \<open>fast_exp3\<close> of
  the functions below.
\<close>

definition coefficient :: "(float \<Rightarrow> float) \<Rightarrow> float \<Rightarrow> float \<Rightarrow> float" where
  "coefficient fast_exp3 t sps = fast_exp3 (- 2 / (sps * t))"

subsection \<open>struct envelope_follower\<close>

record envelope_follower_state =
  ef_y :: float
  ef_attack :: float
  ef_release :: float

text \<open>The constructor; \<open>y\<close> has the default member initialiser \<open>0.0f\<close>.\<close>

definition envelope_follower ::
  "(float \<Rightarrow> float) \<Rightarrow> float \<Rightarrow> float \<Rightarrow> float \<Rightarrow> envelope_follower_state" where
  "envelope_follower fast_exp3 attack release sps =
     \<lparr>ef_y = 0,
      ef_attack = fast_exp3 (- 2 / (sps * attack)),
      ef_release = fast_exp3 (- 2 / (sps * release))\<rparr>"

text \<open>\<open>float operator()(float s)\<close>: the result and the state after the call.\<close>

definition ef_process :: "envelope_follower_state \<Rightarrow> float \<Rightarrow> float \<times> envelope_follower_state" where
  "ef_process st s =
     (let y' = s + (if s > ef_y st then ef_attack st else ef_release st) * (ef_y st - s)
      in (y', st\<lparr>ef_y := y'\<rparr>))"

text \<open>\<open>float operator()() const\<close>.\<close>

definition ef_peek :: "envelope_follower_state \<Rightarrow> float" where
  "ef_peek st = ef_y st"

text \<open>\<open>envelope_follower& operator=(float)\<close>.\<close>

definition ef_assign :: "envelope_follower_state \<Rightarrow> float \<Rightarrow> envelope_follower_state" where
  "ef_assign st y_v = st\<lparr>ef_y := y_v\<rparr>"

text \<open>\<open>void config(duration attack, duration release, float sps)\<close>.\<close>

definition ef_config ::
  "(float \<Rightarrow> float) \<Rightarrow> envelope_follower_state \<Rightarrow> float \<Rightarrow> float \<Rightarrow> float \<Rightarrow> envelope_follower_state" where
  "ef_config fast_exp3 st attack release sps =
     st\<lparr>ef_attack := fast_exp3 (- 2 / (sps * attack)),
        ef_release := fast_exp3 (- 2 / (sps * release))\<rparr>"

text \<open>\<open>void attack(float, float sps)\<close>.\<close>

definition ef_set_attack ::
  "(float \<Rightarrow> float) \<Rightarrow> envelope_follower_state \<Rightarrow> float \<Rightarrow> float \<Rightarrow> envelope_follower_state" where
  "ef_set_attack fast_exp3 st attack_v sps = st\<lparr>ef_attack := fast_exp3 (- 2 / (sps * attack_v))\<rparr>"

text \<open>\<open>void release(float, float sps)\<close>.\<close>

definition ef_set_release ::
  "(float \<Rightarrow> float) \<Rightarrow> envelope_follower_state \<Rightarrow> float \<Rightarrow> float \<Rightarrow> envelope_follower_state" where
  "ef_set_release fast_exp3 st release_v sps = st\<lparr>ef_release := fast_exp3 (- 2 / (sps * release_v))\<rparr>"

subsection \<open>struct peak_envelope_follower\<close>

record peak_envelope_follower_state =
  pf_y :: float
  pf_release :: float

definition peak_envelope_follower ::
  "(float \<Rightarrow> float) \<Rightarrow> float \<Rightarrow> float \<Rightarrow> peak_envelope_follower_state" where
  "peak_envelope_follower fast_exp3 release sps =
     \<lparr>pf_y = 0, pf_release = fast_exp3 (- 2 / (sps * release))\<rparr>"

text \<open>\<open>float operator()(float s)\<close>.\<close>

definition pf_process ::
  "peak_envelope_follower_state \<Rightarrow> float \<Rightarrow> float \<times> peak_envelope_follower_state" where
  "pf_process st s =
     (let st' = (if s > pf_y st then st\<lparr>pf_y := s\<rparr>
                 else st\<lparr>pf_y := s + pf_release st * (pf_y st - s)\<rparr>)
      in (pf_y st', st'))"

definition pf_peek :: "peak_envelope_follower_state \<Rightarrow> float" where
  "pf_peek st = pf_y st"

definition pf_assign :: "peak_envelope_follower_state \<Rightarrow> float \<Rightarrow> peak_envelope_follower_state" where
  "pf_assign st y_v = st\<lparr>pf_y := y_v\<rparr>"

definition pf_set_release ::
  "(float \<Rightarrow> float) \<Rightarrow> peak_envelope_follower_state \<Rightarrow> float \<Rightarrow> float \<Rightarrow> peak_envelope_follower_state" where
  "pf_set_release fast_exp3 st release_v sps = st\<lparr>pf_release := fast_exp3 (- 2 / (sps * release_v))\<rparr>"

subsection \<open>The one-pole step as the specification words it\<close>

text \<open>
  Section 4.2 of the specification: given the current output \<open>y\<close> and a new input \<open>s\<close>,
  compute \<open>y' = s + a (y - s)\<close> where \<open>a\<close> is the attack coefficient if \<open>s > y\<close> and the
  release coefficient otherwise.
\<close>

definition one_pole_spec :: "float \<Rightarrow> float \<Rightarrow> float \<Rightarrow> float \<Rightarrow> float" where
  "one_pole_spec attack release y s = (let a = (if y < s then attack else release) in s + a * (y - s))"

subsection \<open>struct basic_fast_envelope_follower\<close>

text \<open>
  The template parameter \<open>div\<close> is the argument \<open>dv\<close> of the constructor; the array
  \<open>std::array<float, div + 1> _y\<close> is a list, whose length is the constant \<open>size\<close>.
  \<open>_tick\<close>, \<open>_i\<close> and \<open>_reset\<close> are \<open>std::uint16_t\<close>.
\<close>

record fast_envelope_follower_state =
  fe_y :: "float list"
  fe_peak :: float
  fe_tick :: uint16_t
  fe_i :: uint16_t
  fe_reset :: uint16_t

text \<open>
  \<open>basic_fast_envelope_follower(std::size_t hold_samples)\<close>: the member initialiser
  \<open>_reset(hold_samples)\<close> narrows the count to 16 bits; \<open>_y.fill(0)\<close>.
\<close>

definition basic_fast_envelope_follower :: "nat \<Rightarrow> nat \<Rightarrow> fast_envelope_follower_state" where
  "basic_fast_envelope_follower dv hold_samples =
     \<lparr>fe_y = replicate (dv + 1) 0, fe_peak = 0, fe_tick = 0, fe_i = 0,
      fe_reset = of_nat hold_samples\<rparr>"

text \<open>\<open>using fast_envelope_follower = basic_fast_envelope_follower<2>\<close>.\<close>

definition fast_envelope_follower :: "nat \<Rightarrow> fast_envelope_follower_state" where
  "fast_envelope_follower hold_samples = basic_fast_envelope_follower 2 hold_samples"

text \<open>\<open>std::max(a, b)\<close> is \<open>(a < b) ? b : a\<close>.\<close>

definition std_max :: "float \<Rightarrow> float \<Rightarrow> float" where
  "std_max a b = (if a < b then b else a)"

text \<open>
  \<open>*std::max_element(first, last)\<close>: the scan keeps the first of the largest elements.
  The range is never empty in the code (\<open>size = div + 1\<close>); dereferencing the result
  for an empty range is undefined, and so is the function here.
\<close>

fun max_element :: "float list \<Rightarrow> float" where
  "max_element (x # xs) = foldl (\<lambda>largest v. if largest < v then v else largest) x xs"

text \<open>
  \<open>float operator()(float s)\<close>. \<open>_tick++ == _reset\<close> compares the value the counter had
  before the increment; \<open>_i++ % size\<close> indexes with the value \<open>_i\<close> had before it.
\<close>

definition fe_process ::
  "fast_envelope_follower_state \<Rightarrow> float \<Rightarrow> float \<times> fast_envelope_follower_state" where
  "fe_process st s =
     (let st1 = st\<lparr>fe_y := map (\<lambda>y. std_max s y) (fe_y st)\<rparr>;
          st2 = (if fe_tick st1 = fe_reset st1
                 then st1\<lparr>fe_tick := 0,
                          fe_y := (fe_y st1)[unat (fe_i st1) mod length (fe_y st1) := 0],
                          fe_i := fe_i st1 + 1\<rparr>
                 else st1\<lparr>fe_tick := fe_tick st1 + 1\<rparr>);
          st3 = st2\<lparr>fe_peak := max_element (fe_y st2)\<rparr>
      in (fe_peak st3, st3))"

text \<open>\<open>float operator()() const\<close>.\<close>

definition fe_peek :: "fast_envelope_follower_state \<Rightarrow> float" where
  "fe_peek st = fe_peak st"

text \<open>Feeding a sequence of samples: the state it leaves, and the values returned.\<close>

fun fe_run :: "fast_envelope_follower_state \<Rightarrow> float list \<Rightarrow> fast_envelope_follower_state" where
  "fe_run st [] = st"
| "fe_run st (s # ss) = fe_run (snd (fe_process st s)) ss"

fun fe_outputs :: "fast_envelope_follower_state \<Rightarrow> float list \<Rightarrow> float list" where
  "fe_outputs st [] = []"
| "fe_outputs st (s # ss) = fst (fe_process st s) # fe_outputs (snd (fe_process st s)) ss"

text \<open>
  The slot a call clears, if it clears one: the index taken by \<open>_y[_i++ % size] = 0\<close>
  when the counter test succeeds.
\<close>

definition fe_cleared :: "fast_envelope_follower_state \<Rightarrow> nat option" where
  "fe_cleared st =
     (if fe_tick st = fe_reset st then Some (unat (fe_i st) mod length (fe_y st)) else None)"

text \<open>The slots cleared, call by call, while a sequence of samples is fed.\<close>

fun fe_cleared_trace :: "fast_envelope_follower_state \<Rightarrow> float list \<Rightarrow> nat option list" where
  "fe_cleared_trace st [] = []"
| "fe_cleared_trace st (s # ss) = fe_cleared st # fe_cleared_trace (snd (fe_process st s)) ss"

subsection \<open>struct basic_smoothed_fast_envelope_follower\<close>

text \<open>
  The moving average filter (\<open>q/fx/moving_average.hpp\<close>) is not among the sources at
  hand. Its state is the type parameter \<open>'m\<close> and its \<open>operator()(float)\<close> the parameter
  \<open>ma\<close>, from the state and a sample to the result and the new state.
\<close>

record 'm smoothed_fast_envelope_follower_state =
  sf_fenv :: fast_envelope_follower_state
  sf_ma :: 'm

text \<open>\<open>float operator()(float s) { return _ma(_fenv(s)); }\<close>\<close>

definition sf_process ::
  "('m \<Rightarrow> float \<Rightarrow> float \<times> 'm) \<Rightarrow> 'm smoothed_fast_envelope_follower_state \<Rightarrow> float
    \<Rightarrow> float \<times> 'm smoothed_fast_envelope_follower_state" where
  "sf_process ma st s =
     (let (p, fenv') = fe_process (sf_fenv st) s;
          (r, ma') = ma (sf_ma st) p
      in (r, \<lparr>sf_fenv = fenv', sf_ma = ma'\<rparr>))"

subsection \<open>struct fast_rms_envelope_follower and its decibel variant\<close>

text \<open>
  Modelled from the spec: \<open>threshold = as_float(-120_dB)\<close> uses the decibel conversion of
  \<open>q/support/decibel.hpp\<close>, which is not among the sources at hand. The specification
  calls it the linear magnitude equal to -120 dB, that is 10 to the power -120/20, one millionth.
\<close>

definition threshold :: float where
  "threshold = 1 / 1000000"

record 'm fast_rms_envelope_follower_state =
  rms_fenv :: "'m smoothed_fast_envelope_follower_state"

text \<open>
  \<open>float operator()(float s)\<close> of \<open>fast_rms_envelope_follower\<close>. \<open>fast_sqrt\<close> is not among
  the sources at hand and is a parameter.
\<close>

definition rms_process ::
  "(float \<Rightarrow> float) \<Rightarrow> ('m \<Rightarrow> float \<Rightarrow> float \<times> 'm) \<Rightarrow> 'm fast_rms_envelope_follower_state \<Rightarrow> float
    \<Rightarrow> float \<times> 'm fast_rms_envelope_follower_state" where
  "rms_process fast_sqrt ma st s =
     (let (e, fenv') = sf_process ma (rms_fenv st) (s * s);
          e = (if e < threshold then 0 else e)
      in (fast_sqrt e, st\<lparr>rms_fenv := fenv'\<rparr>))"





section \<open>Properties of the exponential and the peak follower\<close>

text \<open>
  C3. In every state of the exponential follower and for every sample \<open>s\<close>, the call
  returns \<open>y' = s + a (y - s)\<close>, with \<open>a\<close> the attack coefficient when \<open>s > y\<close> and the
  release coefficient otherwise; the state after the call holds \<open>y'\<close> as its output and
  the coefficients it had before.
\<close>

theorem ef_process_one_pole:
  "fst (ef_process st s) = one_pole_spec (ef_attack st) (ef_release st) (ef_y st) s
   \<and> ef_y (snd (ef_process st s)) = fst (ef_process st s)
   \<and> ef_peek (snd (ef_process st s)) = fst (ef_process st s)
   \<and> ef_attack (snd (ef_process st s)) = ef_attack st
   \<and> ef_release (snd (ef_process st s)) = ef_release st"
  by (simp add: ef_process_def one_pole_spec_def ef_peek_def Let_def)

text \<open>
  C6. In every state of the peak follower, a sample at or above the current output is
  returned as it is (and stored). A sample strictly above the output replaces it with no
  interpolation; any other sample gives \<open>s + release (y - s)\<close>.
\<close>

theorem pf_process_zero_lag_attack:
  "(pf_y st \<le> s \<longrightarrow> fst (pf_process st s) = s \<and> pf_y (snd (pf_process st s)) = s)
   \<and> (pf_y st < s \<longrightarrow> snd (pf_process st s) = st\<lparr>pf_y := s\<rparr>)
   \<and> (\<not> pf_y st < s \<longrightarrow>
        fst (pf_process st s) = s + pf_release st * (pf_y st - s)
        \<and> snd (pf_process st s) = st\<lparr>pf_y := s + pf_release st * (pf_y st - s)\<rparr>)"
  by (auto simp add: pf_process_def Let_def)

theorem pf_process_zero_lag_attack_witness:
  "fst (pf_process \<lparr>pf_y = 1/2, pf_release = 9/10\<rparr> 2) = 2
   \<and> fst (pf_process \<lparr>pf_y = 2, pf_release = 9/10\<rparr> 2) = 2
   \<and> fst (pf_process \<lparr>pf_y = 2, pf_release = 1/2\<rparr> 1) = 3/2"
  using pf_process_zero_lag_attack [of "\<lparr>pf_y = 1/2, pf_release = 9/10\<rparr>" 2]
    pf_process_zero_lag_attack [of "\<lparr>pf_y = 2, pf_release = 9/10\<rparr>" 2]
    pf_process_zero_lag_attack [of "\<lparr>pf_y = 2, pf_release = 1/2\<rparr>" 1]
  by simp

text \<open>
  C8. The three reconfiguration operations of the exponential follower leave the tracked
  output \<open>y\<close> as it is and write only coefficient fields: \<open>config\<close> both, \<open>attack\<close> the
  attack coefficient, \<open>release\<close> the release coefficient. The next call therefore
  starts from the same \<open>y\<close>, with the new coefficients.
\<close>

theorem ef_reconfigure_keeps_y:
  "ef_y (ef_config fe st a r sps) = ef_y st
   \<and> ef_y (ef_set_attack fe st a sps) = ef_y st
   \<and> ef_y (ef_set_release fe st r sps) = ef_y st
   \<and> ef_peek (ef_config fe st a r sps) = ef_peek st
   \<and> ef_release (ef_set_attack fe st a sps) = ef_release st
   \<and> ef_attack (ef_set_release fe st r sps) = ef_attack st
   \<and> ef_config fe st a r sps = st\<lparr>ef_attack := coefficient fe a sps, ef_release := coefficient fe r sps\<rparr>
   \<and> fst (ef_process (ef_config fe st a r sps) s)
        = one_pole_spec (coefficient fe a sps) (coefficient fe r sps) (ef_y st) s"
  by (simp add: ef_config_def ef_set_attack_def ef_set_release_def ef_peek_def
      ef_process_def one_pole_spec_def coefficient_def Let_def)

lemma coefficient_mono:
  assumes "mono E" and "0 < sps" and "0 < t1" and "t1 \<le> t2"
  shows "coefficient E t1 sps \<le> coefficient E t2 sps"
proof -
  have "sps * t1 \<le> sps * t2" using assms by simp
  moreover have "0 < sps * t1" using assms by simp
  ultimately have "2 / (sps * t2) \<le> 2 / (sps * t1)"
    by (simp add: frac_le)
  then have "- 2 / (sps * t1) \<le> - 2 / (sps * t2)" by simp
  then show ?thesis unfolding coefficient_def using assms(1) by (rule monoD [rotated])
qed

text \<open>
  C7. Every coefficient of the exponential follower (constructor, \<open>config\<close>, \<open>attack\<close>,
  \<open>release\<close>) and of the peak follower (constructor, \<open>release\<close>) is the exponential
  primitive applied to \<open>-2 / (sps t)\<close>. With the exact exponential this is
  \<open>exp (-2 / (sps t))\<close>, a value strictly between 0 and 1 for positive \<open>t\<close> and \<open>sps\<close>. A
  primitive within relative error \<open>eps\<close> of the exponential gives a coefficient within
  relative error \<open>eps\<close> of that value, and a monotone primitive gives coefficients that
  grow with the time constant.
\<close>

theorem coefficient_derivation:
  "ef_attack (envelope_follower E a r sps) = coefficient E a sps
   \<and> ef_release (envelope_follower E a r sps) = coefficient E r sps
   \<and> ef_attack (ef_config E st a r sps) = coefficient E a sps
   \<and> ef_release (ef_config E st a r sps) = coefficient E r sps
   \<and> ef_attack (ef_set_attack E st a sps) = coefficient E a sps
   \<and> ef_release (ef_set_release E st r sps) = coefficient E r sps
   \<and> pf_release (peak_envelope_follower E r sps) = coefficient E r sps
   \<and> pf_release (pf_set_release E pst r sps) = coefficient E r sps
   \<and> coefficient exp t sps = exp (- 2 / (sps * t))
   \<and> (0 < t \<and> 0 < sps \<longrightarrow> 0 < coefficient exp t sps \<and> coefficient exp t sps < 1)
   \<and> ((\<forall>x. \<bar>E x - exp x\<bar> \<le> eps * exp x) \<longrightarrow>
        \<bar>coefficient E t sps - exp (- 2 / (sps * t))\<bar> \<le> eps * exp (- 2 / (sps * t)))
   \<and> (mono E \<and> 0 < sps \<and> 0 < t \<and> t \<le> t' \<longrightarrow> coefficient E t sps \<le> coefficient E t' sps)"
proof -
  have "0 < t \<and> 0 < sps \<longrightarrow> - 2 / (sps * t) < 0"
    by (simp add: divide_neg_pos)
  then have unit: "0 < t \<and> 0 < sps \<longrightarrow> 0 < coefficient exp t sps \<and> coefficient exp t sps < 1"
    by (simp add: coefficient_def)
  show ?thesis
    using unit coefficient_mono [of E sps t t']
    by (simp add: envelope_follower_def ef_config_def ef_set_attack_def ef_set_release_def
        peak_envelope_follower_def pf_set_release_def coefficient_def)
qed

theorem coefficient_derivation_witness:
  "coefficient exp (1/100) 44100 = exp (- 2 / 441)
   \<and> 0 < coefficient exp (1/100) 44100 \<and> coefficient exp (1/100) 44100 < 1
   \<and> coefficient exp (1/100) 44100 \<le> coefficient exp (1/10) 44100
   \<and> \<bar>coefficient exp (1/100) 44100 - exp (- 2 / (44100 * (1/100)))\<bar>
        \<le> (1/1000) * exp (- 2 / (44100 * (1/100)))"
  using coefficient_derivation [of exp "1/100" "1/10" 44100
      "\<lparr>ef_y = 0, ef_attack = 0, ef_release = 0\<rparr>" "\<lparr>pf_y = 0, pf_release = 0\<rparr>"
      "1/100" "1/1000" "1/10"]
  by (simp add: mono_def)

section \<open>Properties of the staircase follower\<close>

text \<open>Rules that evaluate the follower on explicit samples.\<close>

lemma replicate_numeral_unfold: "replicate (numeral k) x = x # replicate (pred_numeral k) x"
  by (simp add: numeral_eq_Suc)

lemma list_update_Cons_numeral: "(x # xs)[numeral k := v] = x # xs[pred_numeral k := v]"
  by (simp add: numeral_eq_Suc)

lemmas fe_eval = fe_process_def fe_cleared_def std_max_def Let_def replicate_numeral_unfold
  list_update_Cons_numeral

lemma fe_run_append: "fe_run st (xs @ ys) = fe_run (fe_run st xs) ys"
  by (induction xs arbitrary: st) simp_all

lemma fe_outputs_append:
  "fe_outputs st (xs @ ys) = fe_outputs st xs @ fe_outputs (fe_run st xs) ys"
  by (induction xs arbitrary: st) simp_all

lemma fe_outputs_take: "fe_outputs st (take k xs) = take k (fe_outputs st xs)"
proof (induction xs arbitrary: st k)
  case Nil
  then show ?case by simp
next
  case (Cons x xs)
  then show ?case by (cases k) simp_all
qed

lemma max_element_in: "ys \<noteq> [] \<Longrightarrow> max_element ys \<in> set ys"
proof -
  have aux: "foldl (\<lambda>largest v. if largest < v then v else largest) x xs \<in> insert x (set xs)"
    for x :: real and xs
    by (induction xs arbitrary: x) (simp, force)
  assume "ys \<noteq> []"
  then obtain x xs where "ys = x # xs" by (cases ys) auto
  then show ?thesis using aux [of x xs] by simp
qed

lemma max_element_ge: "v \<in> set ys \<Longrightarrow> v \<le> max_element ys"
proof -
  have mono: "x \<le> foldl (\<lambda>largest v. if largest < v then v else largest) x xs"
    for x :: real and xs
  proof (induction xs arbitrary: x)
    case Nil
    show ?case by simp
  next
    case (Cons a xs)
    show ?case
    proof (cases "x < a")
      case True
      then have "x \<le> a" by simp
      also have "a \<le> foldl (\<lambda>largest v. if largest < v then v else largest) a xs"
        by (rule Cons)
      finally show ?thesis using True by simp
    next
      case False
      then show ?thesis using Cons [of x] by simp
    qed
  qed
  have aux: "v \<in> insert x (set xs) \<Longrightarrow> v \<le> foldl (\<lambda>largest v. if largest < v then v else largest) x xs"
    for x :: real and xs
  proof (induction xs arbitrary: x)
    case Nil
    then show ?case by simp
  next
    case (Cons a xs)
    then show ?case using mono [of a xs] mono [of x xs]
      by (auto simp: not_less) 
  qed
  assume "v \<in> set ys"
  then show ?thesis using aux by (cases ys) auto
qed

text \<open>\<open>std::max\<close> and \<open>std::max_element\<close> compute the maximum.\<close>

lemma std_max_eq_max: "std_max a b = max a b"
  by (simp add: std_max_def max_def not_less)

lemma max_element_eq_Max: "ys \<noteq> [] \<Longrightarrow> max_element ys = Max (set ys)"
proof -
  assume ne: "ys \<noteq> []"
  have "Max (set ys) = max_element ys"
  proof (rule Max_eqI)
    show "finite (set ys)" by simp
    show "y \<le> max_element ys" if "y \<in> set ys" for y
      using that by (rule max_element_ge)
    show "max_element ys \<in> set ys" using ne by (rule max_element_in)
  qed
  then show ?thesis by simp
qed

lemma max_element_replicate: "max_element (replicate (Suc k) c) = c"
  using max_element_in [of "replicate (Suc k) c"] by auto

lemma replicate_update_same: "(replicate k c)[j := c] = replicate k c"
proof (induction k arbitrary: j)
  case 0
  show ?case by simp
next
  case (Suc k)
  then show ?case by (cases j) simp_all
qed


lemma fe_process_reset: "fe_reset (snd (fe_process st s)) = fe_reset st"
  by (simp add: fe_process_def Let_def)

lemma fe_process_tick:
  "fe_tick (snd (fe_process st s)) = (if fe_tick st = fe_reset st then 0 else fe_tick st + 1)"
  by (simp add: fe_process_def Let_def)

lemma fe_process_i:
  "fe_i (snd (fe_process st s)) = (if fe_tick st = fe_reset st then fe_i st + 1 else fe_i st)"
  by (simp add: fe_process_def Let_def)

lemma fe_process_y:
  "fe_y (snd (fe_process st s)) =
     (if fe_tick st = fe_reset st
      then (map (\<lambda>y. std_max s y) (fe_y st))[unat (fe_i st) mod length (fe_y st) := 0]
      else map (\<lambda>y. std_max s y) (fe_y st))"
  by (simp add: fe_process_def Let_def)

lemma fe_process_peak: "fe_peak (snd (fe_process st s)) = max_element (fe_y (snd (fe_process st s)))"
  by (simp add: fe_process_def Let_def)

lemma fe_process_fst: "fst (fe_process st s) = max_element (fe_y (snd (fe_process st s)))"
  by (simp add: fe_process_def Let_def)

lemma fe_process_length: "length (fe_y (snd (fe_process st s))) = length (fe_y st)"
  by (simp add: fe_process_y)

lemma fe_run_length: "length (fe_y (fe_run st xs)) = length (fe_y st)"
  by (induction xs arbitrary: st) (simp_all add: fe_process_length)

lemma fe_run_reset: "fe_reset (fe_run st xs) = fe_reset st"
  by (induction xs arbitrary: st) (simp_all add: fe_process_reset)

lemma std_max_ge: "b \<le> std_max a b"
  by (simp add: std_max_def)

lemma fe_process_slots_nonneg:
  assumes "\<forall>v\<in>set (fe_y st). 0 \<le> v"
  shows "\<forall>v\<in>set (fe_y (snd (fe_process st s))). 0 \<le> v"
proof -
  have m: "\<forall>v\<in>set (map (\<lambda>y. std_max s y) (fe_y st)). 0 \<le> v"
    using assms std_max_ge [of _ s] by (auto intro: order_trans)
  show ?thesis
  proof (cases "fe_tick st = fe_reset st")
    case True
    have "set ((map (\<lambda>y. std_max s y) (fe_y st))[unat (fe_i st) mod length (fe_y st) := 0])
          \<subseteq> insert 0 (set (map (\<lambda>y. std_max s y) (fe_y st)))"
      by (rule set_update_subset_insert)
    then show ?thesis using m True by (auto simp: fe_process_y)
  next
    case False
    then show ?thesis using m by (simp add: fe_process_y)
  qed
qed

lemma fe_process_out_nonneg:
  assumes "\<forall>v\<in>set (fe_y st). 0 \<le> v" and "fe_y st \<noteq> []"
  shows "0 \<le> fst (fe_process st s)"
proof -
  have "fe_y (snd (fe_process st s)) \<noteq> []"
    using assms(2) fe_process_length [of st s] by (metis length_0_conv)
  then have "max_element (fe_y (snd (fe_process st s))) \<in> set (fe_y (snd (fe_process st s)))"
    by (rule max_element_in)
  then show ?thesis
    using fe_process_slots_nonneg [OF assms(1), of s] by (simp add: fe_process_fst)
qed

lemma fe_run_nonneg:
  assumes "\<forall>v\<in>set (fe_y st). 0 \<le> v" and "fe_y st \<noteq> []" and "0 \<le> fe_peak st"
  shows "(\<forall>v\<in>set (fe_y (fe_run st xs)). 0 \<le> v) \<and> 0 \<le> fe_peak (fe_run st xs)
         \<and> (\<forall>p\<in>set (fe_outputs st xs). 0 \<le> p)"
  using assms
proof (induction xs arbitrary: st)
  case Nil
  then show ?case by simp
next
  case (Cons s xs)
  let ?st' = "snd (fe_process st s)"
  have a: "\<forall>v\<in>set (fe_y ?st'). 0 \<le> v"
    by (rule fe_process_slots_nonneg [OF Cons.prems(1)])
  have b: "fe_y ?st' \<noteq> []"
    using Cons.prems(2) fe_process_length [of st s] by (metis length_0_conv)
  have c: "0 \<le> fst (fe_process st s)"
    by (rule fe_process_out_nonneg [OF Cons.prems(1,2)])
  then have d: "0 \<le> fe_peak ?st'"
    by (simp add: fe_process_fst fe_process_peak)
  show ?case using Cons.IH [OF a b d] c by simp
qed

lemma fe_process_quiet:
  assumes "fe_y st = replicate (Suc k) 0" and "s \<le> 0"
  shows "fe_y (snd (fe_process st s)) = replicate (Suc k) 0 \<and> fst (fe_process st s) = 0"
proof -
  have m: "map (\<lambda>y. std_max s y) (replicate (Suc k) 0) = replicate (Suc k) 0"
    using assms(2) by (simp add: std_max_def)
  have y: "fe_y (snd (fe_process st s)) = replicate (Suc k) 0"
    unfolding fe_process_y assms(1) m
    by (simp only: replicate_update_same if_cancel)
  show ?thesis using y max_element_replicate [of k 0] by (simp add: fe_process_fst)
qed

lemma fe_outputs_quiet:
  assumes "fe_y st = replicate (Suc k) 0" and "\<forall>s\<in>set xs. s \<le> 0"
  shows "fe_outputs st xs = replicate (length xs) 0"
  using assms
proof (induction xs arbitrary: st)
  case Nil
  then show ?case by simp
next
  case (Cons s xs)
  have q: "fe_y (snd (fe_process st s)) = replicate (Suc k) 0 \<and> fst (fe_process st s) = 0"
    using Cons.prems by (intro fe_process_quiet) simp_all
  then show ?case using Cons.IH [of "snd (fe_process st s)"] Cons.prems(2) by simp
qed

text \<open>
  C10. Whatever samples are fed to a freshly constructed staircase follower, negative
  ones included, every slot, the stored peak and every value returned are nonnegative:
  the slots start at 0 and a call either raises a slot to the maximum of itself and the
  sample or clears it to 0. When no sample is positive the follower returns 0 throughout,
  so it tracks the maximum of 0 and the signal.
\<close>

theorem fe_nonnegative:
  "(\<forall>v\<in>set (fe_y (fe_run (basic_fast_envelope_follower dv hold_samples) xs)). 0 \<le> v)
   \<and> 0 \<le> fe_peek (fe_run (basic_fast_envelope_follower dv hold_samples) xs)
   \<and> (\<forall>p\<in>set (fe_outputs (basic_fast_envelope_follower dv hold_samples) xs). 0 \<le> p)
   \<and> ((\<forall>s\<in>set xs. s \<le> 0) \<longrightarrow>
        fe_outputs (basic_fast_envelope_follower dv hold_samples) xs = replicate (length xs) 0)"
proof -
  let ?c = "basic_fast_envelope_follower dv hold_samples"
  have y: "fe_y ?c = replicate (Suc dv) 0" and p: "fe_peak ?c = 0"
    by (simp_all add: basic_fast_envelope_follower_def)
  have "\<forall>v\<in>set (fe_y ?c). 0 \<le> v" "fe_y ?c \<noteq> []" "0 \<le> fe_peak ?c"
    by (simp_all add: y p)
  from fe_run_nonneg [OF this, of xs] fe_outputs_quiet [OF y, of xs]
  show ?thesis by (simp add: fe_peek_def)
qed

theorem fe_nonnegative_witness:
  "fe_outputs (basic_fast_envelope_follower 2 10) [- 1, - 3, - (1/2)] = [0, 0, 0]
   \<and> fe_outputs (basic_fast_envelope_follower 2 10) [- 1, 2, - 5] = [0, 2, 2]
   \<and> 0 \<le> fe_peek (fe_run (basic_fast_envelope_follower 2 10) [- 1, 2, - 5])"
  using fe_nonnegative [of 2 10 "[- 1, - 3, - (1/2)]"] fe_nonnegative [of 2 10 "[- 1, 2, - 5]"]
  by (simp add: basic_fast_envelope_follower_def fe_eval)

lemma fe_cleared_trace_append:
  "fe_cleared_trace st (xs @ ys) = fe_cleared_trace st xs @ fe_cleared_trace (fe_run st xs) ys"
  by (induction xs arbitrary: st) simp_all

lemma fe_run_zero_hold:
  assumes "fe_tick st = 0" and "fe_reset st = 0"
  shows "fe_tick (fe_run st xs) = 0 \<and> fe_i (fe_run st xs) = fe_i st + of_nat (length xs)"
  using assms
proof (induction xs arbitrary: st)
  case Nil
  then show ?case by simp
next
  case (Cons s xs)
  have "fe_tick (snd (fe_process st s)) = 0" "fe_reset (snd (fe_process st s)) = 0"
    "fe_i (snd (fe_process st s)) = fe_i st + 1"
    using Cons.prems by (simp_all add: fe_process_tick fe_process_reset fe_process_i)
  then show ?case using Cons.IH [of "snd (fe_process st s)"] by simp
qed

lemma fe_zero_hold_trace:
  "fe_cleared_trace (basic_fast_envelope_follower dv 0) xs
     = map (\<lambda>n. Some (n mod 65536 mod (dv + 1))) [0..<length xs]"
proof (induction xs rule: rev_induct)
  case Nil
  show ?case by simp
next
  case (snoc x xs)
  let ?c = "basic_fast_envelope_follower dv 0"
  have c: "fe_tick ?c = 0" "fe_reset ?c = 0" "fe_i ?c = 0" "length (fe_y ?c) = dv + 1"
    by (simp_all add: basic_fast_envelope_follower_def)
  have "fe_cleared (fe_run ?c xs) = Some (length xs mod 65536 mod (dv + 1))"
    using fe_run_zero_hold [OF c(1,2), of xs] c
    by (simp add: fe_cleared_def fe_run_reset fe_run_length unat_of_nat)
  then show ?case using snoc by (simp add: fe_cleared_trace_append)
qed

text \<open>
  C9. A staircase follower constructed with a hold count of 0 is well defined. In every
  state it reaches, the counter equals the threshold (both are 0), the array has
  \<open>div + 1 > 0\<close> slots, so the index \<open>_i % size\<close> divides by a positive number, and
  each call clears exactly the slot at that index after the update with the sample and
  advances \<open>_i\<close>: one slot is cleared on every sample. \<open>fe_process\<close> has no loop besides
  the traversal of the array, so every call returns.
\<close>

theorem fe_zero_hold_clears_every_sample:
  "fe_tick (fe_run (basic_fast_envelope_follower dv 0) xs) = 0
   \<and> fe_reset (fe_run (basic_fast_envelope_follower dv 0) xs) = 0
   \<and> length (fe_y (fe_run (basic_fast_envelope_follower dv 0) xs)) = dv + 1
   \<and> fe_y (snd (fe_process (fe_run (basic_fast_envelope_follower dv 0) xs) s))
       = (map (\<lambda>y. std_max s y) (fe_y (fe_run (basic_fast_envelope_follower dv 0) xs)))
           [unat (fe_i (fe_run (basic_fast_envelope_follower dv 0) xs)) mod (dv + 1) := 0]
   \<and> fe_i (snd (fe_process (fe_run (basic_fast_envelope_follower dv 0) xs) s))
       = fe_i (fe_run (basic_fast_envelope_follower dv 0) xs) + 1
   \<and> fe_cleared_trace (basic_fast_envelope_follower dv 0) xs
       = map (\<lambda>n. Some (n mod 65536 mod (dv + 1))) [0..<length xs]"
proof -
  let ?c = "basic_fast_envelope_follower dv 0"
  have c: "fe_tick ?c = 0" "fe_reset ?c = 0" "length (fe_y ?c) = dv + 1"
    by (simp_all add: basic_fast_envelope_follower_def)
  have t: "fe_tick (fe_run ?c xs) = 0"
    using fe_run_zero_hold [OF c(1,2), of xs] by simp
  have r: "fe_reset (fe_run ?c xs) = 0"
    by (simp add: fe_run_reset c)
  have l: "length (fe_y (fe_run ?c xs)) = dv + 1"
    by (simp add: fe_run_length c)
  show ?thesis
    using t r l by (simp add: fe_process_y fe_process_i fe_zero_hold_trace)
qed

subsection \<open>Hold periods and the impulse response\<close>

lemma fe_process_on_quiet:
  assumes "fe_y st = replicate (Suc k) 0"
  shows "snd (fe_process st 0) =
           st\<lparr>fe_tick := (if fe_tick st = fe_reset st then 0 else fe_tick st + 1),
              fe_i := (if fe_tick st = fe_reset st then fe_i st + 1 else fe_i st),
              fe_peak := 0\<rparr>"
proof (rule fast_envelope_follower_state.equality)
  have q: "fe_y (snd (fe_process st 0)) = replicate (Suc k) 0" "fst (fe_process st 0) = 0"
    using fe_process_quiet [OF assms, of 0] by simp_all
  show "fe_y (snd (fe_process st 0)) = fe_y (st\<lparr>fe_tick := (if fe_tick st = fe_reset st then 0 else fe_tick st + 1),
              fe_i := (if fe_tick st = fe_reset st then fe_i st + 1 else fe_i st),
              fe_peak := 0\<rparr>)"
    using q assms by simp
  show "fe_peak (snd (fe_process st 0)) = fe_peak (st\<lparr>fe_tick := (if fe_tick st = fe_reset st then 0 else fe_tick st + 1),
              fe_i := (if fe_tick st = fe_reset st then fe_i st + 1 else fe_i st),
              fe_peak := 0\<rparr>)"
    using q by (simp add: fe_process_peak fe_process_fst)
qed (simp_all add: fe_process_tick fe_process_i fe_process_reset fe_process_def Let_def)

lemma fe_run_quiet_period_aux:
  assumes "fe_y st = replicate (Suc k) 0" and "unat (fe_tick st) + j = unat (fe_reset st)"
  shows "fe_run st (replicate (Suc j) 0) = st\<lparr>fe_tick := 0, fe_i := fe_i st + 1, fe_peak := 0\<rparr>"
  using assms
proof (induction j arbitrary: st)
  case 0
  then have "fe_tick st = fe_reset st" by (simp add: word_unat_eq_iff)
  then show ?case using fe_process_on_quiet [OF "0.prems"(1)] by simp
next
  case (Suc j)
  let ?st' = "st\<lparr>fe_tick := fe_tick st + 1, fe_peak := 0\<rparr>"
  have lt: "fe_tick st < fe_reset st"
    using Suc.prems(2) by (simp add: word_less_nat_alt)
  then have ne: "fe_tick st \<noteq> fe_reset st" by simp
  have "unat (fe_tick st) + unat (1 :: uint16_t) < 2 ^ LENGTH(16)"
    using Suc.prems(2) unsigned_less [of "fe_reset st", where 'a = nat] by simp
  then have "unat (fe_tick st + 1) = unat (fe_tick st) + unat (1 :: uint16_t)"
    by (simp only: unat_add_lem)
  then have u: "unat (fe_tick st + 1) = Suc (unat (fe_tick st))" by simp
  have step: "snd (fe_process st 0) = ?st'"
    using fe_process_on_quiet [OF Suc.prems(1)] ne by simp
  have "fe_run ?st' (replicate (Suc j) 0) = ?st'\<lparr>fe_tick := 0, fe_i := fe_i ?st' + 1, fe_peak := 0\<rparr>"
    using Suc.prems u by (intro Suc.IH) simp_all
  then show ?case using step by simp
qed

lemma fe_run_quiet_periods:
  assumes "fe_y st = replicate (Suc k) 0" and "fe_tick st = 0" and "fe_peak st = 0"
  shows "fe_run st (replicate (m * Suc (unat (fe_reset st))) 0) = st\<lparr>fe_i := fe_i st + of_nat m\<rparr>"
  using assms
proof (induction m arbitrary: st)
  case 0
  then show ?case by simp
next
  case (Suc m)
  let ?h = "unat (fe_reset st)"
  let ?st' = "st\<lparr>fe_tick := 0, fe_i := fe_i st + 1, fe_peak := 0\<rparr>"
  have one: "fe_run st (replicate (Suc ?h) 0) = ?st'"
    using Suc.prems by (intro fe_run_quiet_period_aux) simp_all
  have rest: "fe_run ?st' (replicate (m * Suc (unat (fe_reset ?st'))) 0) = ?st'\<lparr>fe_i := fe_i ?st' + of_nat m\<rparr>"
    using Suc.prems by (intro Suc.IH) simp_all
  have "replicate (Suc m * Suc ?h) (0::real) = replicate (Suc ?h) 0 @ replicate (m * Suc ?h) 0"
    by (simp add: replicate_add [symmetric])
  then have "fe_run st (replicate (Suc m * Suc ?h) 0) = fe_run ?st' (replicate (m * Suc ?h) 0)"
    using one by (simp only: fe_run_append)
  also have "\<dots> = ?st'\<lparr>fe_i := fe_i ?st' + of_nat m\<rparr>" using rest by simp
  also have "\<dots> = st\<lparr>fe_i := fe_i st + of_nat (Suc m)\<rparr>"
    using Suc.prems by (intro fast_envelope_follower_state.equality) (simp_all add: algebra_simps)
  finally show ?case .
qed




lemma fe_after_65535_holds:
  "fe_run (fast_envelope_follower 10) (replicate 720885 0)
     = \<lparr>fe_y = [0, 0, 0], fe_peak = 0, fe_tick = 0, fe_i = 65535, fe_reset = 10\<rparr>"
proof -
  define c where "c = fast_envelope_follower 10"
  have c: "c = \<lparr>fe_y = [0, 0, 0], fe_peak = 0, fe_tick = 0, fe_i = 0, fe_reset = 10\<rparr>"
    by (simp add: c_def fast_envelope_follower_def basic_fast_envelope_follower_def
        replicate_numeral_unfold)
  have y: "fe_y c = replicate (Suc 2) 0"
    by (simp add: c replicate_numeral_unfold)
  have n: "65535 * Suc (unat (fe_reset c)) = 720885"
    by (simp add: c)
  have "fe_run c (replicate (65535 * Suc (unat (fe_reset c))) 0) = c\<lparr>fe_i := fe_i c + of_nat 65535\<rparr>"
    by (rule fe_run_quiet_periods [OF y]) (simp_all add: c)
  then have "fe_run c (replicate 720885 0) = c\<lparr>fe_i := fe_i c + of_nat 65535\<rparr>"
    by (simp only: n)
  also have "\<dots> = \<lparr>fe_y = [0, 0, 0], fe_peak = 0, fe_tick = 0, fe_i = 65535, fe_reset = 10\<rparr>"
    by (simp add: c)
  finally show ?thesis by (simp only: c_def)
qed

text \<open>
  C2 says that each reset clears the next slot in round-robin order. The rotation index
  \<open>_i\<close> is a 16-bit counter and the slot is \<open>_i % size\<close>; for \<open>fast_envelope_follower\<close>
  (\<open>size = 3\<close>) the order breaks where \<open>_i\<close> wraps, since 65536 is not a multiple of 3.
  After 65535 hold periods of silence (720885 samples at a hold count of 10) \<open>_i\<close> is
  65535. An impulse fed then sees slot 0 cleared at the next reset (\<open>65535 % 3 = 0\<close>) and
  slot 0 again at the reset after it (\<open>0 % 3 = 0\<close>); slots 1 and 2 follow one period
  late, and the impulse is held for four periods instead of three.
\<close>

theorem fe_rotation_wraps_out_of_order:
  "fe_cleared_trace (fe_run (fast_envelope_follower 10) (replicate 720885 0)) (1 # replicate 43 0)
     = replicate 10 None @ [Some 0] @ replicate 10 None @ [Some 0]
       @ replicate 10 None @ [Some 1] @ replicate 10 None @ [Some 2]
   \<and> fe_outputs (fe_run (fast_envelope_follower 10) (replicate 720885 0)) (1 # replicate 43 0)
     = replicate 43 1 @ [0]"
  unfolding fe_after_65535_holds by (simp add: fe_eval)

lemma fe_impulse_32:
  "fe_outputs (fast_envelope_follower 10) (1 # replicate 32 0) = replicate 32 1 @ [0]"
  "fe_y (fe_run (fast_envelope_follower 10) (1 # replicate 32 0)) = replicate (Suc 2) 0"
  by (simp_all add: fast_envelope_follower_def basic_fast_envelope_follower_def fe_eval)

text \<open>
  C1, as amended. A fresh \<open>fast_envelope_follower\<close> (three slots) with a hold count of 10
  is fed an impulse of 1 and then \<open>n\<close> zero samples. The counter is compared before it is
  incremented, so a slot is cleared every 11th call. The follower returns 1 for the
  impulse and for the first 31 zero samples, which covers the 10 samples of the hold, and
  0 from the 32nd zero sample on: that is the call that clears the third slot, after
  slot 0 at the 10th and slot 1 at the 21st zero sample.
\<close>

theorem fe_impulse_response:
  "fe_outputs (fast_envelope_follower 10) (1 # replicate n 0)
     = replicate (min (Suc n) 32) 1 @ replicate (n - 31) 0
   \<and> fe_cleared_trace (fast_envelope_follower 10) (1 # replicate 32 0)
     = replicate 10 None @ [Some 0] @ replicate 10 None @ [Some 1] @ replicate 10 None @ [Some 2]"
proof
  let ?c = "fast_envelope_follower 10"
  show "fe_outputs ?c (1 # replicate n 0) = replicate (min (Suc n) 32) 1 @ replicate (n - 31) 0"
  proof (cases "n \<le> 31")
    case True
    then have "1 # replicate n (0::real) = take (Suc n) (1 # replicate 32 0)"
      by simp
    then have "fe_outputs ?c (1 # replicate n 0) = take (Suc n) (replicate 32 1 @ [0])"
      by (simp only: fe_outputs_take fe_impulse_32)
    also have "\<dots> = replicate (Suc n) 1"
      using True by simp
    also have "\<dots> = replicate (min (Suc n) 32) 1 @ replicate (n - 31) 0"
      using True by (simp add: min_def)
    finally show ?thesis .
  next
    case False
    then have "1 # replicate n (0::real) = (1 # replicate 32 0) @ replicate (n - 32) 0"
      by (simp add: replicate_add [symmetric])
    then have "fe_outputs ?c (1 # replicate n 0)
        = (replicate 32 1 @ [0]) @ fe_outputs (fe_run ?c (1 # replicate 32 0)) (replicate (n - 32) 0)"
      by (simp only: fe_outputs_append fe_impulse_32)
    also have "fe_outputs (fe_run ?c (1 # replicate 32 0)) (replicate (n - 32) 0) = replicate (n - 32) 0"
      using fe_outputs_quiet [OF fe_impulse_32(2), of "replicate (n - 32) 0"] by simp
    also have "(replicate 32 1 @ [0]) @ replicate (n - 32) (0::real)
        = replicate (min (Suc n) 32) 1 @ replicate (n - 31) 0"
    proof -
      have "n - 31 = Suc (n - 32)" using False by simp
      then show ?thesis using False by (simp add: min_def)
    qed
    finally show ?thesis .
  qed
next
  show "fe_cleared_trace (fast_envelope_follower 10) (1 # replicate 32 0)
     = replicate 10 None @ [Some 0] @ replicate 10 None @ [Some 1] @ replicate 10 None @ [Some 2]"
    by (simp add: fast_envelope_follower_def basic_fast_envelope_follower_def fe_eval)
qed

text \<open>
  C1 as stated puts the return to 0 within 30 zero samples. After the impulse and 30 zero
  samples every value returned so far is 1.
\<close>

theorem fe_impulse_not_silent_after_30:
  "fe_outputs (fast_envelope_follower 10) (1 # replicate 30 0) = replicate 31 1"
  by (simp add: fast_envelope_follower_def basic_fast_envelope_follower_def fe_eval)

text \<open>
  A call that finds the counter below the threshold clears no slot and leaves \<open>_i\<close> as it
  is: after a reset the next \<open>_reset\<close> calls clear nothing, so two resets are
  \<open>_reset + 1\<close> calls apart.
\<close>

lemma fe_hold_period:
  assumes "unat (fe_tick st) + length xs \<le> unat (fe_reset st)"
  shows "unat (fe_tick (fe_run st xs)) = unat (fe_tick st) + length xs
         \<and> fe_i (fe_run st xs) = fe_i st
         \<and> fe_cleared_trace st xs = replicate (length xs) None"
  using assms
proof (induction xs arbitrary: st)
  case Nil
  then show ?case by simp
next
  case (Cons s xs)
  let ?st' = "snd (fe_process st s)"
  have lt: "unat (fe_tick st) < unat (fe_reset st)"
    using Cons.prems by simp
  then have ne: "fe_tick st \<noteq> fe_reset st" by auto
  have "unat (fe_tick st) + unat (1 :: uint16_t) < 2 ^ LENGTH(16)"
    using lt unsigned_less [of "fe_reset st", where 'a = nat] by simp
  then have "unat (fe_tick st + 1) = unat (fe_tick st) + unat (1 :: uint16_t)"
    by (simp only: unat_add_lem)
  then have u: "unat (fe_tick ?st') = Suc (unat (fe_tick st))"
    using ne by (simp add: fe_process_tick)
  have "unat (fe_tick ?st') + length xs \<le> unat (fe_reset ?st')"
    using Cons.prems u by (simp add: fe_process_reset)
  from Cons.IH [OF this] show ?case
    using ne u by (simp add: fe_process_tick fe_process_i fe_cleared_def)
qed

text \<open>While \<open>_i\<close> does not wrap, a reset moves to the next slot in cyclic order.\<close>

lemma fe_rotation_in_order:
  assumes "fe_tick st = fe_reset st" and "unat (fe_i st) \<noteq> 65535"
  shows "unat (fe_i (snd (fe_process st s))) mod n = (unat (fe_i st) mod n + 1) mod n"
proof -
  have "unat (fe_i st) < 2 ^ LENGTH(16)" by (rule unsigned_less)
  then have "unat (fe_i st) + unat (1 :: uint16_t) < 2 ^ LENGTH(16)"
    using assms(2) by simp
  then have "unat (fe_i st + 1) = unat (fe_i st) + unat (1 :: uint16_t)"
    by (simp only: unat_add_lem)
  then show ?thesis using assms(1) by (simp add: fe_process_i mod_Suc_eq)
qed

section \<open>Properties of the RMS followers\<close>

lemma threshold_minus_120_dB: "20 * log 10 threshold = - 120"
proof -
  have "threshold = 10 powr (- 6)"
    by (simp add: threshold_def powr_minus_divide)
  moreover have "log 10 (10 powr (- 6)) = (- 6 :: real)"
    by (rule log_powr_cancel) simp_all
  ultimately have "log 10 threshold = - 6"
    by (simp only:)
  then show ?thesis by simp
qed

lemma threshold_pos: "0 < threshold"
  by (simp add: threshold_def)

text \<open>
  C5. The call of the RMS follower feeds the square of the sample to the smoothed
  staircase follower (the staircase follower, then the moving average) and replaces a
  tracked energy below the threshold by 0 before the square root is taken. The threshold
  is positive and is the linear magnitude of -120 dB. With the identity in place of the
  square root the call returns the argument of the square root: it is 0 or at least the
  threshold, so never negative and never a positive value below the threshold.
\<close>

theorem rms_process_clamps:
  "fst (rms_process fast_sqrt ma st s)
     = fast_sqrt (fst (rms_process (\<lambda>e. e) ma st s))
   \<and> fst (rms_process (\<lambda>e. e) ma st s)
     = (if fst (sf_process ma (rms_fenv st) (s * s)) < threshold then 0
        else fst (sf_process ma (rms_fenv st) (s * s)))
   \<and> fst (sf_process ma (rms_fenv st) (s * s))
     = fst (ma (sf_ma (rms_fenv st)) (fst (fe_process (sf_fenv (rms_fenv st)) (s * s))))
   \<and> (fst (rms_process (\<lambda>e. e) ma st s) = 0 \<or> threshold \<le> fst (rms_process (\<lambda>e. e) ma st s))
   \<and> 0 \<le> fst (rms_process (\<lambda>e. e) ma st s)
   \<and> \<not> (0 < fst (rms_process (\<lambda>e. e) ma st s) \<and> fst (rms_process (\<lambda>e. e) ma st s) < threshold)
   \<and> 0 < threshold \<and> 20 * log 10 threshold = - 120"
proof -
  have arg: "fst (rms_process f ma st s)
     = f (if fst (sf_process ma (rms_fenv st) (s * s)) < threshold then 0
        else fst (sf_process ma (rms_fenv st) (s * s)))" for f
    by (simp add: rms_process_def Let_def split_beta)
  have sf: "fst (sf_process ma (rms_fenv st) (s * s))
     = fst (ma (sf_ma (rms_fenv st)) (fst (fe_process (sf_fenv (rms_fenv st)) (s * s))))"
    by (simp add: sf_process_def Let_def split_beta)
  show ?thesis
    using threshold_pos threshold_minus_120_dB sf by (auto simp add: arg)
qed

theorem rms_process_clamps_witness:
  "fst (rms_process sqrt (\<lambda>m x. (x / 2, m)) \<lparr>rms_fenv = \<lparr>sf_fenv = fast_envelope_follower 10, sf_ma = ()\<rparr>\<rparr> (1/1000)) = 0
   \<and> fst (rms_process sqrt (\<lambda>m x. (x / 2, m)) \<lparr>rms_fenv = \<lparr>sf_fenv = fast_envelope_follower 10, sf_ma = ()\<rparr>\<rparr> 4) = sqrt 8"
  using rms_process_clamps [of sqrt "\<lambda>m x. (x / 2, m)" "\<lparr>rms_fenv = \<lparr>sf_fenv = fast_envelope_follower 10, sf_ma = ()\<rparr>\<rparr>" "1/1000"]
    rms_process_clamps [of sqrt "\<lambda>m x. (x / 2, m)" "\<lparr>rms_fenv = \<lparr>sf_fenv = fast_envelope_follower 10, sf_ma = ()\<rparr>\<rparr>" 4]
  by (simp add: sf_process_def fast_envelope_follower_def basic_fast_envelope_follower_def
      fe_eval threshold_def)







end
